theory Spec2Isabelle
  imports Complex_Main
begin

section \<open>Values, sockets and the server state\<close>

text \<open>
  The JavaScript values that the handlers of \<^verbatim>\<open>server.js\<close> store and compare:
  \<^verbatim>\<open>undefined\<close>, \<^verbatim>\<open>null\<close>, a string, a number, a boolean, or an object or array, which
  is known by its identity only. Strict equality \<^verbatim>\<open>===\<close> on these is equality of the
  datatype (values by content, objects by identity). The falsy values are
  \<^verbatim>\<open>undefined\<close>, \<^verbatim>\<open>null\<close>, the empty string, zero and \<^verbatim>\<open>false\<close>. A number is a
  real: what a client sends is JSON, which has neither NaN nor an infinity.
\<close>

datatype jsval = Undefined | Null | Str string | Num real | Bool bool | Obj nat

fun truthy :: "jsval \<Rightarrow> bool" where
  "truthy (Str v) = (v \<noteq> [])"
| "truthy (Num x) = (x \<noteq> 0)"
| "truthy (Bool b) = b"
| "truthy (Obj _) = True"
| "truthy Undefined = False"
| "truthy Null = False"

text \<open>
  A socket object carries the fields the handlers attach to it (\<^verbatim>\<open>socket.opponent\<close>,
  \<^verbatim>\<open>socket.move\<close>, \<^verbatim>\<open>socket.walletAddress\<close>). \<open>connected\<close> says whether the
  object is still held by \<^verbatim>\<open>io.sockets.sockets\<close>: an object that has left the registry
  stays alive in the closures of its handlers.
\<close>

record socket =
  opponent :: jsval
  move :: jsval
  walletAddress :: jsval
  connected :: bool

datatype role = Offerer | Answerer

datatype mint_result = MintOk string | MintErr string

datatype event =
    Welcome string
  | WaitingForOpponent
  | MatchFound string role
  | SignalEv jsval string
  | OpponentDisconnected string
  | OpponentLeft string
  | GameResult string
  | TokensSent mint_result
  | OpponentWantsRematch
  | WaitingForOpponentRematch
  | RematchReady string

text \<open>The events of name \<^verbatim>\<open>matchFound\<close>.\<close>

fun is_matchFound :: "event \<Rightarrow> bool" where
  "is_matchFound (MatchFound _ _) = True"
| "is_matchFound _ = False"


text \<open>
  The shared state: the socket objects by id, \<^verbatim>\<open>waitingPlayers\<close>, \<^verbatim>\<open>rematchRequests\<close>,
  and the emitted events in order, each with the id of the socket (or of the room of that
  name) it is sent to.
\<close>

record state =
  sockets :: "string \<rightharpoonup> socket"
  waitingPlayers :: "string list"
  rematchRequests :: "string \<rightharpoonup> bool"
  outbox :: "(string \<times> event) list"

definition init :: state where
  "init = \<lparr>sockets = Map.empty, waitingPlayers = [], rematchRequests = Map.empty, outbox = []\<rparr>"

text \<open>
  \<^verbatim>\<open>io.sockets.sockets.get(v)\<close>: the connected socket of that id, with its id. The keys
  of the registry are strings, so no other value finds a socket.
\<close>

fun get_socket :: "state \<Rightarrow> jsval \<Rightarrow> (string \<times> socket) option" where
  "get_socket s (Str i) =
     (case sockets s i of
        Some k \<Rightarrow> if connected k then Some (i, k) else None
      | None \<Rightarrow> None)"
| "get_socket s _ = None"

text \<open>An assignment to a field of the socket object of id \<open>i\<close>.\<close>

definition upd_socket :: "string \<Rightarrow> (socket \<Rightarrow> socket) \<Rightarrow> state \<Rightarrow> state" where
  "upd_socket i f s = s\<lparr>sockets := (sockets s)(i := map_option f (sockets s i))\<rparr>"

definition emit :: "string \<Rightarrow> event \<Rightarrow> state \<Rightarrow> state" where
  "emit i e s = s\<lparr>outbox := outbox s @ [(i, e)]\<rparr>"

definition set_opponent :: "string \<Rightarrow> jsval \<Rightarrow> state \<Rightarrow> state" where
  "set_opponent i v s = upd_socket i (\<lambda>k. k\<lparr>opponent := v\<rparr>) s"

definition set_move :: "string \<Rightarrow> jsval \<Rightarrow> state \<Rightarrow> state" where
  "set_move i v s = upd_socket i (\<lambda>k. k\<lparr>move := v\<rparr>) s"

text \<open>\<^verbatim>\<open>rematchRequests[i] = b\<close> and \<^verbatim>\<open>delete rematchRequests[i]\<close>.\<close>

definition set_rematch :: "string \<Rightarrow> bool \<Rightarrow> state \<Rightarrow> state" where
  "set_rematch i b s = s\<lparr>rematchRequests := (rematchRequests s)(i \<mapsto> b)\<rparr>"

definition delete_rematch :: "string \<Rightarrow> state \<Rightarrow> state" where
  "delete_rematch i s = s\<lparr>rematchRequests := (rematchRequests s)(i := None)\<rparr>"

section \<open>Round resolution\<close>

definition determineWinner :: "jsval \<Rightarrow> jsval \<Rightarrow> string" where
  "determineWinner player1Move player2Move =
     (if player1Move = player2Move then ''draw''
      else if (player1Move = Str ''rock'' \<and> player2Move = Str ''scissors'')
            \<or> (player1Move = Str ''scissors'' \<and> player2Move = Str ''paper'')
            \<or> (player1Move = Str ''paper'' \<and> player2Move = Str ''rock'')
      then ''win''
      else ''lose'')"

section \<open>Matchmaking\<close>

function matchmaking :: "string \<Rightarrow> state \<Rightarrow> state" where
  "matchmaking sid s =
     (case waitingPlayers s of
        opponentId # rest \<Rightarrow>
          (let s1 = s\<lparr>waitingPlayers := rest\<rparr> in
           case get_socket s1 (Str opponentId) of
             Some _ \<Rightarrow>
               emit opponentId (MatchFound sid Answerer)
                 (emit sid (MatchFound opponentId Offerer)
                   (set_opponent opponentId (Str sid)
                     (set_opponent sid (Str opponentId) s1)))
           | None \<Rightarrow> matchmaking sid s1)
      | [] \<Rightarrow>
          emit sid WaitingForOpponent (s\<lparr>waitingPlayers := waitingPlayers s @ [sid]\<rparr>))"
  by pat_completeness auto
termination
  by (relation "measure (\<lambda>(sid, s). length (waitingPlayers s))") auto

declare matchmaking.simps [simp del]

section \<open>The handlers\<close>

text \<open>
  Every handler is a closure over its own \<^verbatim>\<open>socket\<close>; the model passes the id \<open>sid\<close> of
  that socket and does nothing when no such object exists.
\<close>

definition new_socket :: socket where
  "new_socket =
     \<lparr>opponent = Undefined, move = Undefined, walletAddress = Undefined, connected = True\<rparr>"

definition connection :: "string \<Rightarrow> state \<Rightarrow> state" where
  "connection sid s =
     emit sid (Welcome ''Welcome to the Rock Paper Scissors game!'')
       (s\<lparr>sockets := (sockets s)(sid \<mapsto> new_socket)\<rparr>)"

definition setWalletAddress :: "string \<Rightarrow> jsval \<Rightarrow> state \<Rightarrow> state" where
  "setWalletAddress sid address s = upd_socket sid (\<lambda>k. k\<lparr>walletAddress := address\<rparr>) s"

definition readyToPlay :: "string \<Rightarrow> state \<Rightarrow> state" where
  "readyToPlay sid s = (case sockets s sid of None \<Rightarrow> s | Some _ \<Rightarrow> matchmaking sid s)"

definition signal :: "string \<Rightarrow> jsval \<Rightarrow> jsval \<Rightarrow> string \<Rightarrow> state \<Rightarrow> state" where
  "signal sid to from payload s =
     (case get_socket s to of
        Some (rid, _) \<Rightarrow> emit rid (SignalEv from payload) s
      | None \<Rightarrow> emit sid (OpponentDisconnected ''Your opponent is no longer available.'') s)"

text \<open>
  The payload \<^verbatim>\<open>data\<close> of a \<^verbatim>\<open>playerMove\<close> event: none (\<^verbatim>\<open>undefined\<close> or \<^verbatim>\<open>null\<close>,
  on which reading \<^verbatim>\<open>data.move\<close> throws), or a value whose \<^verbatim>\<open>move\<close> property is the
  given value (\<open>Undefined\<close> when it has none).
\<close>

datatype payload = NoPayload | Payload jsval

datatype js_error = TypeError

text \<open>
  The \<^verbatim>\<open>playerMove\<close> handler is asynchronous: on a decisive result it suspends at the
  call of \<^verbatim>\<open>tokenContract.mint\<close> and resumes when the call settles. The model returns
  the state at the suspension with what the continuation holds (\<^verbatim>\<open>socket\<close>,
  \<^verbatim>\<open>opponentSocket\<close>, \<^verbatim>\<open>winnerSocket\<close> and the address passed to the call);
  \<open>playerMove_settled\<close> is the continuation, run on whatever the state is by then.
  Without payload the first statement of the handler throws, before anything is stored.
\<close>

record pending_mint =
  pm_socket :: string
  pm_opponent :: string
  pm_winner :: string
  pm_address :: jsval

definition playerMove ::
  "string \<Rightarrow> payload \<Rightarrow> state \<Rightarrow> js_error + state \<times> pending_mint option" where
  "playerMove sid data s =
     (case data of
        NoPayload \<Rightarrow> Inl TypeError
      | Payload mv \<Rightarrow>
          Inr (case sockets s sid of
            None \<Rightarrow> (s, None)
          | Some k \<Rightarrow>
              (let s1 = set_move sid mv s in
               if truthy (opponent k) then
                 (case get_socket s1 (opponent k) of
                    Some (oid, ok) \<Rightarrow>
                      if truthy (move ok) then
                        (let result = determineWinner mv (move ok) in
                         if result = ''draw'' then
                           (set_move oid Null (set_move sid Null
                              (emit oid (GameResult ''Draw'')
                                 (emit sid (GameResult ''Draw'') s1))),
                            None)
                         else
                           (let winner = (if result = ''win'' then sid else oid);
                                loser = (if result = ''win'' then oid else sid)
                            in (emit loser (GameResult ''You lost!'')
                                  (emit winner (GameResult ''You won!'') s1),
                                Some \<lparr>pm_socket = sid, pm_opponent = oid, pm_winner = winner,
                                      pm_address = (if result = ''win'' then walletAddress k
                                                    else walletAddress ok)\<rparr>)))
                      else (s1, None)
                  | None \<Rightarrow> (s1, None))
               else (s1, None))))"

text \<open>
  The test of lines 149 to 151, as the handler sees it once the move is stored: the
  connected opponent of the sender, when that opponent holds a pending move.
\<close>

definition opponent_with_move :: "string \<Rightarrow> jsval \<Rightarrow> state \<Rightarrow> (string \<times> socket) option" where
  "opponent_with_move sid mv s =
     (case sockets s sid of
        None \<Rightarrow> None
      | Some k \<Rightarrow>
          if truthy (opponent k) then
            (case get_socket (set_move sid mv s) (opponent k) of
               Some (oid, ok) \<Rightarrow> if truthy (move ok) then Some (oid, ok) else None
             | None \<Rightarrow> None)
          else None)"

definition playerMove_settled :: "mint_result \<Rightarrow> pending_mint \<Rightarrow> state \<Rightarrow> state" where
  "playerMove_settled r pm s =
     set_move (pm_opponent pm) Null
       (set_move (pm_socket pm) Null (emit (pm_winner pm) (TokensSent r) s))"

definition requestRematch :: "string \<Rightarrow> state \<Rightarrow> state" where
  "requestRematch sid s =
     (case sockets s sid of
        None \<Rightarrow> s
      | Some k \<Rightarrow>
          if truthy (opponent k) then
            (case get_socket s (opponent k) of
               Some (oid, _) \<Rightarrow>
                 if rematchRequests s oid = Some True then
                   set_opponent oid (Str sid)
                     (set_opponent sid (Str oid)
                       (set_rematch sid False
                         (set_rematch oid False
                           (emit oid (RematchReady sid) (emit sid (RematchReady oid) s)))))
                 else
                   emit sid WaitingForOpponentRematch
                     (emit oid OpponentWantsRematch (set_rematch sid True s))
             | None \<Rightarrow>
                 matchmaking sid
                   (set_opponent sid Null
                     (emit sid (OpponentLeft ''Your opponent has disconnected.'') s)))
          else emit sid (OpponentLeft ''You have no opponent to rematch with.'') s)"

definition rematchReady :: "string \<Rightarrow> jsval \<Rightarrow> state \<Rightarrow> state" where
  "rematchReady sid opponentId s =
     (case sockets s sid of
        None \<Rightarrow> s
      | Some _ \<Rightarrow>
          (case get_socket s opponentId of
             Some (oid, _) \<Rightarrow>
               emit oid (MatchFound sid Answerer)
                 (emit sid (MatchFound oid Offerer)
                   (set_opponent oid (Str sid) (set_opponent sid opponentId s)))
           | None \<Rightarrow>
               matchmaking sid
                 (set_opponent sid Null
                   (emit sid (OpponentLeft ''Your opponent has disconnected.'') s))))"

definition findNewOpponent :: "string \<Rightarrow> state \<Rightarrow> state" where
  "findNewOpponent sid s =
     (case sockets s sid of
        None \<Rightarrow> s
      | Some k \<Rightarrow>
          (let s1 =
             (if truthy (opponent k) then
                set_opponent sid Null
                  (case get_socket s (opponent k) of
                     Some (oid, _) \<Rightarrow>
                       matchmaking oid
                         (delete_rematch oid
                           (set_opponent oid Null
                             (emit oid
                               (OpponentLeft ''Your opponent has decided to find a new opponent.'')
                               s)))
                   | None \<Rightarrow> s)
              else s)
           in matchmaking sid (delete_rematch sid s1)))"

text \<open>
  The transport takes a closing socket out of \<^verbatim>\<open>io.sockets.sockets\<close> and then fires
  \<^verbatim>\<open>disconnect\<close>; the handler still reads the fields of its own object.
\<close>

definition disconnect :: "string \<Rightarrow> state \<Rightarrow> state" where
  "disconnect sid s =
     (case sockets s sid of
        None \<Rightarrow> s
      | Some k \<Rightarrow>
          (let s0 = upd_socket sid (\<lambda>k. k\<lparr>connected := False\<rparr>) s;
               s1 = s0\<lparr>waitingPlayers := filter (\<lambda>i. i \<noteq> sid) (waitingPlayers s0)\<rparr>;
               s2 =
                 (if truthy (opponent k) then
                    (case get_socket s1 (opponent k) of
                       Some (oid, _) \<Rightarrow>
                         matchmaking oid
                           (delete_rematch oid
                             (set_opponent oid Null
                               (emit oid (OpponentDisconnected ''Your opponent has disconnected.'')
                                  s1)))
                     | None \<Rightarrow> s1)
                  else s1)
           in delete_rematch sid s2))"

section \<open>Runs of connect, ready and disconnect events\<close>

datatype inbound = Connect string | Ready string | Disconnect string

fun step :: "inbound \<Rightarrow> state \<Rightarrow> state" where
  "step (Connect i) s = connection i s"
| "step (Ready i) s = readyToPlay i s"
| "step (Disconnect i) s = disconnect i s"

fun run :: "state \<Rightarrow> inbound list \<Rightarrow> state" where
  "run s [] = s"
| "run s (e # es) = run (step e s) es"

text \<open>Membership of the registry \<^verbatim>\<open>io.sockets.sockets\<close>.\<close>

definition is_connected :: "state \<Rightarrow> string \<Rightarrow> bool" where
  "is_connected s i = (case sockets s i of Some k \<Rightarrow> connected k | None \<Rightarrow> False)"

text \<open>What a session's fields hold, when the session exists.\<close>

definition opponent_of :: "state \<Rightarrow> string \<Rightarrow> jsval option" where
  "opponent_of s i = map_option opponent (sockets s i)"

definition move_of :: "state \<Rightarrow> string \<Rightarrow> jsval option" where
  "move_of s i = map_option move (sockets s i)"

text \<open>
  What the transport allows: a new connection has a fresh, non-empty id; a message or a
  disconnection comes from a connected socket.
\<close>

fun feasible_step :: "inbound \<Rightarrow> state \<Rightarrow> bool" where
  "feasible_step (Connect i) s = (sockets s i = None \<and> i \<noteq> [])"
| "feasible_step (Ready i) s = is_connected s i"
| "feasible_step (Disconnect i) s = is_connected s i"

fun feasible :: "state \<Rightarrow> inbound list \<Rightarrow> bool" where
  "feasible s [] = True"
| "feasible s (e # es) = (feasible_step e s \<and> feasible (step e s) es)"

text \<open>A session is paired when its opponent reference is present (truthy).\<close>

definition paired :: "state \<Rightarrow> string \<Rightarrow> bool" where
  "paired s i = (case opponent_of s i of Some v \<Rightarrow> truthy v | None \<Rightarrow> False)"



text \<open>
  The invariant of such runs: the queue holds at most one id, and a queued id is a
  session that is not paired.
\<close>

definition queue_inv :: "state \<Rightarrow> bool" where
  "queue_inv s \<longleftrightarrow>
     length (waitingPlayers s) \<le> 1
   \<and> (\<forall>i \<in> set (waitingPlayers s). sockets s i \<noteq> None \<and> \<not> paired s i)"

section \<open>Example states\<close>

text \<open>Sessions a and b paired by the queue.\<close>

definition pair_ab :: state where
  "pair_ab = run init [Connect ''a'', Connect ''b'', Ready ''a'', Ready ''b'']"

text \<open>The pair after b has submitted rock.\<close>

definition b_played_rock :: state where
  "b_played_rock = set_move ''b'' (Str ''rock'') pair_ab"

text \<open>The pair after b has submitted the value lizard.\<close>

definition b_played_lizard :: state where
  "b_played_lizard = set_move ''b'' (Str ''lizard'') pair_ab"

text \<open>The pair after b has requested a rematch.\<close>

definition b_requested :: state where
  "b_requested = requestRematch ''b'' pair_ab"

text \<open>Session a has submitted rock before entering matchmaking; b waits in the queue.\<close>

definition a_played_alone :: state where
  "a_played_alone =
     set_move ''a'' (Str ''rock'') (run init [Connect ''a'', Connect ''b'', Ready ''b''])"

text \<open>Two pairs of sessions, each made by the queue: a with b, c with d.\<close>

definition two_pairs :: state where
  "two_pairs =
     run init [Connect ''a'', Connect ''b'', Connect ''c'', Connect ''d'',
               Ready ''a'', Ready ''b'', Ready ''c'', Ready ''d'']"

section \<open>Unfolding matchmaking\<close>

lemmas ops_defs = emit_def set_opponent_def set_move_def set_rematch_def delete_rematch_def
  upd_socket_def

lemma is_connected_waitingPlayers_update [simp]:
  "is_connected (s\<lparr>waitingPlayers := q\<rparr>) i = is_connected s i"
  by (simp add: is_connected_def)

lemma get_socket_Str:
  "get_socket s (Str i) = (if is_connected s i then Some (i, the (sockets s i)) else None)"
  by (simp add: is_connected_def split: option.splits)

lemma matchmaking_enqueue:
  "waitingPlayers s = [] \<Longrightarrow>
   matchmaking sid s = emit sid WaitingForOpponent (s\<lparr>waitingPlayers := [sid]\<rparr>)"
  by (subst matchmaking.simps) simp

lemma matchmaking_pair:
  "waitingPlayers s = oid # rest \<Longrightarrow> is_connected s oid \<Longrightarrow>
   matchmaking sid s =
     emit oid (MatchFound sid Answerer)
       (emit sid (MatchFound oid Offerer)
         (set_opponent oid (Str sid)
           (set_opponent sid (Str oid) (s\<lparr>waitingPlayers := rest\<rparr>))))"
  by (subst matchmaking.simps) (simp add: is_connected_def split: option.splits)

lemma matchmaking_retry:
  "waitingPlayers s = oid # rest \<Longrightarrow> \<not> is_connected s oid \<Longrightarrow>
   matchmaking sid s = matchmaking sid (s\<lparr>waitingPlayers := rest\<rparr>)"
  by (subst matchmaking.simps) (simp add: is_connected_def split: option.splits)

lemma matchmaking_dropWhile:
  "matchmaking sid s =
     (case dropWhile (\<lambda>i. \<not> is_connected s i) (waitingPlayers s) of
        [] \<Rightarrow> emit sid WaitingForOpponent (s\<lparr>waitingPlayers := [sid]\<rparr>)
      | oid # rest \<Rightarrow>
          emit oid (MatchFound sid Answerer)
            (emit sid (MatchFound oid Offerer)
              (set_opponent oid (Str sid)
                (set_opponent sid (Str oid) (s\<lparr>waitingPlayers := rest\<rparr>)))))"
proof (induction "waitingPlayers s" arbitrary: s)
  case Nil
  then show ?case by (simp add: matchmaking_enqueue)
next
  case (Cons oid rest)
  show ?case
  proof (cases "is_connected s oid")
    case True
    with Cons.hyps(2) show ?thesis
      by (simp add: matchmaking_pair [of s oid rest] flip: Cons.hyps(2))
  next
    case False
    let ?D = "dropWhile (\<lambda>i. \<not> is_connected s i) rest"
    have q: "waitingPlayers s = oid # rest"
      using Cons.hyps(2) by simp
    have retry: "matchmaking sid s = matchmaking sid (s\<lparr>waitingPlayers := rest\<rparr>)"
      using q False by (rule matchmaking_retry)
    have drop: "dropWhile (\<lambda>i. \<not> is_connected s i) (waitingPlayers s) = ?D"
      using q False by simp
    have ih: "matchmaking sid (s\<lparr>waitingPlayers := rest\<rparr>) =
      (case ?D of
         [] \<Rightarrow> emit sid WaitingForOpponent (s\<lparr>waitingPlayers := [sid]\<rparr>)
       | oid # rest' \<Rightarrow>
          emit oid (MatchFound sid Answerer)
            (emit sid (MatchFound oid Offerer)
              (set_opponent oid (Str sid)
                (set_opponent sid (Str oid)
                  (s\<lparr>waitingPlayers := rest'\<rparr>)))))"
      using Cons.hyps(1) [of "s\<lparr>waitingPlayers := rest\<rparr>"]
      by (simp cong: list.case_cong)
    show ?thesis
      unfolding drop retry ih ..
  qed
qed


lemmas run_defs = init_def connection_def new_socket_def readyToPlay_def disconnect_def
  is_connected_def opponent_of_def move_of_def paired_def

lemma two_pairs_sockets:
  "sockets two_pairs ''a'' = Some (new_socket\<lparr>opponent := Str ''b''\<rparr>)"
  "sockets two_pairs ''b'' = Some (new_socket\<lparr>opponent := Str ''a''\<rparr>)"
  "sockets two_pairs ''c'' = Some (new_socket\<lparr>opponent := Str ''d''\<rparr>)"
  "sockets two_pairs ''d'' = Some (new_socket\<lparr>opponent := Str ''c''\<rparr>)"
  by (simp_all add: two_pairs_def run_defs matchmaking_enqueue matchmaking_pair ops_defs)

section \<open>Facts about the example states and frames\<close>

lemma pair_ab_fields:
  "sockets pair_ab ''a'' = Some (new_socket\<lparr>opponent := Str ''b''\<rparr>)"
  "sockets pair_ab ''b'' = Some (new_socket\<lparr>opponent := Str ''a''\<rparr>)"
  "waitingPlayers pair_ab = []"
  "rematchRequests pair_ab = Map.empty"
  by (simp_all add: pair_ab_def run_defs matchmaking_enqueue matchmaking_pair ops_defs)

lemma b_played_rock_fields:
  "sockets b_played_rock ''a'' = Some (new_socket\<lparr>opponent := Str ''b''\<rparr>)"
  "sockets b_played_rock ''b'' = Some (new_socket\<lparr>opponent := Str ''a'', move := Str ''rock''\<rparr>)"
  "playerMove ''b'' (Payload (Str ''rock'')) pair_ab = Inr (b_played_rock, None)"
  by (simp_all add: b_played_rock_def playerMove_def pair_ab_fields new_socket_def ops_defs)

lemma b_played_lizard_fields:
  "sockets b_played_lizard ''a'' = Some (new_socket\<lparr>opponent := Str ''b''\<rparr>)"
  "sockets b_played_lizard ''b'' =
     Some (new_socket\<lparr>opponent := Str ''a'', move := Str ''lizard''\<rparr>)"
  "playerMove ''b'' (Payload (Str ''lizard'')) pair_ab = Inr (b_played_lizard, None)"
  by (simp_all add: b_played_lizard_def playerMove_def pair_ab_fields new_socket_def ops_defs)

lemma b_requested_fields:
  "sockets b_requested ''a'' = Some (new_socket\<lparr>opponent := Str ''b''\<rparr>)"
  "sockets b_requested ''b'' = Some (new_socket\<lparr>opponent := Str ''a''\<rparr>)"
  "rematchRequests b_requested ''b'' = Some True"
  "rematchRequests b_requested ''a'' = None"
  by (simp_all add: b_requested_def requestRematch_def pair_ab_fields new_socket_def ops_defs)

lemma a_played_alone_fields:
  "sockets a_played_alone ''a'' = Some (new_socket\<lparr>move := Str ''rock''\<rparr>)"
  "sockets a_played_alone ''b'' = Some new_socket"
  "waitingPlayers a_played_alone = [''b'']"
  "playerMove ''a'' (Payload (Str ''rock'')) (run init [Connect ''a'', Connect ''b'', Ready ''b''])
     = Inr (a_played_alone, None)"
  by (simp_all add: a_played_alone_def playerMove_def run_defs matchmaking_enqueue ops_defs)

lemma move_of_matchmaking: "move_of (matchmaking c s) i = move_of s i"
  by (simp add: matchmaking_dropWhile move_of_def ops_defs option.map_comp comp_def
      split: list.splits)

lemma move_of_rematchReady: "move_of (rematchReady c v s) i = move_of s i"
  by (simp add: rematchReady_def move_of_def move_of_matchmaking [unfolded move_of_def] ops_defs
      option.map_comp comp_def split: option.splits)


section \<open>Properties\<close>

text \<open>
  C1. For every pair of moves drawn from rock, paper and scissors, \<open>determineWinner\<close>
  yields one of draw, win and lose: identical moves give a draw; the first player wins
  exactly when the pair is rock/scissors, scissors/paper or paper/rock; swapping the two
  moves swaps win and lose and keeps a draw.
\<close>

theorem determineWinner_total_commutative:
  assumes "m1 \<in> {Str ''rock'', Str ''paper'', Str ''scissors''}"
    and "m2 \<in> {Str ''rock'', Str ''paper'', Str ''scissors''}"
  shows "determineWinner m1 m2 \<in> {''draw'', ''win'', ''lose''}
    \<and> (determineWinner m1 m2 = ''draw'' \<longleftrightarrow> m1 = m2)
    \<and> (determineWinner m1 m2 = ''win'' \<longleftrightarrow>
         (m1, m2) \<in> {(Str ''rock'', Str ''scissors''), (Str ''scissors'', Str ''paper''),
                     (Str ''paper'', Str ''rock'')})
    \<and> (determineWinner m1 m2 = ''win'' \<longleftrightarrow> determineWinner m2 m1 = ''lose'')
    \<and> (determineWinner m1 m2 = ''lose'' \<longleftrightarrow> determineWinner m2 m1 = ''win'')
    \<and> (determineWinner m1 m2 = ''draw'' \<longleftrightarrow> determineWinner m2 m1 = ''draw'')"
  using assms by (auto simp: determineWinner_def)

theorem determineWinner_total_commutative_witness:
  "determineWinner (Str ''rock'') (Str ''scissors'') = ''win''
   \<and> determineWinner (Str ''scissors'') (Str ''rock'') = ''lose''"
proof -
  have h: "Str ''rock'' \<in> {Str ''rock'', Str ''paper'', Str ''scissors''}"
    "Str ''scissors'' \<in> {Str ''rock'', Str ''paper'', Str ''scissors''}"
    by simp_all
  from determineWinner_total_commutative [OF h] show ?thesis
    by blast
qed

text \<open>
  C2. Matchmaking for a caller session: on an empty queue the caller's id is appended
  to the tail and the only event emitted is the waiting notification to the caller; on a
  queue whose popped head is still connected, the caller's opponent reference is the head
  and the head's is the caller, the head has left the queue, and the two match-found
  notifications are the events emitted. Nothing here depends on the caller being unpaired.
\<close>

theorem matchmaking_enqueue_or_pair:
  assumes "sockets s sid = Some k"
  shows "(waitingPlayers s = [] \<longrightarrow>
           matchmaking sid s =
             s\<lparr>waitingPlayers := waitingPlayers s @ [sid],
               outbox := outbox s @ [(sid, WaitingForOpponent)]\<rparr>)
       \<and> (\<forall>oid rest. waitingPlayers s = oid # rest \<and> is_connected s oid \<longrightarrow>
             opponent_of (matchmaking sid s) sid = Some (Str oid)
           \<and> opponent_of (matchmaking sid s) oid = Some (Str sid)
           \<and> waitingPlayers (matchmaking sid s) = rest
           \<and> outbox (matchmaking sid s) =
               outbox s @ [(sid, MatchFound oid Offerer), (oid, MatchFound sid Answerer)])"
proof (intro conjI allI impI)
  assume "waitingPlayers s = []"
  then show "matchmaking sid s =
      s\<lparr>waitingPlayers := waitingPlayers s @ [sid],
        outbox := outbox s @ [(sid, WaitingForOpponent)]\<rparr>"
    by (simp add: matchmaking_enqueue emit_def)
next
  fix oid rest
  assume h: "waitingPlayers s = oid # rest \<and> is_connected s oid"
  then obtain ko where ko: "sockets s oid = Some ko"
    by (auto simp: is_connected_def split: option.splits)
  have m: "matchmaking sid s =
     emit oid (MatchFound sid Answerer)
       (emit sid (MatchFound oid Offerer)
         (set_opponent oid (Str sid)
           (set_opponent sid (Str oid) (s\<lparr>waitingPlayers := rest\<rparr>))))"
    using h by (simp add: matchmaking_pair)
  show "opponent_of (matchmaking sid s) sid = Some (Str oid)"
    unfolding m using assms ko by (simp add: opponent_of_def ops_defs)
  show "opponent_of (matchmaking sid s) oid = Some (Str sid)"
    unfolding m using assms ko by (simp add: opponent_of_def ops_defs)
  show "waitingPlayers (matchmaking sid s) = rest"
    unfolding m by (simp add: ops_defs)
  show "outbox (matchmaking sid s) =
      outbox s @ [(sid, MatchFound oid Offerer), (oid, MatchFound sid Answerer)]"
    unfolding m by (simp add: ops_defs)
qed


theorem matchmaking_enqueue_or_pair_witness:
  "waitingPlayers (run init [Connect ''a'', Connect ''b'']) = []
   \<and> waitingPlayers (matchmaking ''a'' (run init [Connect ''a'', Connect ''b''])) = [''a'']
   \<and> outbox (matchmaking ''a'' (run init [Connect ''a'', Connect ''b''])) =
       outbox (run init [Connect ''a'', Connect ''b'']) @ [(''a'', WaitingForOpponent)]
   \<and> waitingPlayers (run init [Connect ''a'', Connect ''b'', Ready ''a'']) = [''a'']
   \<and> is_connected (run init [Connect ''a'', Connect ''b'', Ready ''a'']) ''a''
   \<and> opponent_of (matchmaking ''b'' (run init [Connect ''a'', Connect ''b'', Ready ''a'']))
         ''b'' = Some (Str ''a'')
   \<and> opponent_of (matchmaking ''b'' (run init [Connect ''a'', Connect ''b'', Ready ''a'']))
         ''a'' = Some (Str ''b'')
   \<and> waitingPlayers (matchmaking ''b'' (run init [Connect ''a'', Connect ''b'', Ready ''a'']))
       = []"
proof -
  let ?t = "run init [Connect ''a'', Connect ''b'']"
  let ?s = "run init [Connect ''a'', Connect ''b'', Ready ''a'']"
  have e: "waitingPlayers ?t = []"
    by (simp add: run_defs ops_defs)
  have ka: "sockets ?t ''a'' = Some new_socket"
    by (simp add: run_defs ops_defs)
  have k: "sockets ?s ''b'' = Some new_socket"
    by (simp add: run_defs matchmaking_enqueue ops_defs)
  have q: "waitingPlayers ?s = [''a''] \<and> is_connected ?s ''a''"
    by (simp add: run_defs matchmaking_enqueue ops_defs)
  from matchmaking_enqueue_or_pair [OF ka] e
  have "matchmaking ''a'' ?t =
      ?t\<lparr>waitingPlayers := waitingPlayers ?t @ [''a''],
         outbox := outbox ?t @ [(''a'', WaitingForOpponent)]\<rparr>"
    by blast
  then have 1: "waitingPlayers (matchmaking ''a'' ?t) = [''a'']
      \<and> outbox (matchmaking ''a'' ?t) = outbox ?t @ [(''a'', WaitingForOpponent)]"
    using e by simp
  from matchmaking_enqueue_or_pair [OF k] q
  have 2: "opponent_of (matchmaking ''b'' ?s) ''b'' = Some (Str ''a'')
      \<and> opponent_of (matchmaking ''b'' ?s) ''a'' = Some (Str ''b'')
      \<and> waitingPlayers (matchmaking ''b'' ?s) = []"
    by blast
  from 1 2 e q show ?thesis
    by blast
qed

text \<open>
  C8. A connected session that is the sole member of the queue and sends ready-to-play
  again is paired with itself: matchmaking pops the caller's own id, sets the caller's
  opponent reference to its own id, leaves the queue empty and emits both match-found
  notifications (offerer, then answerer) to that one session. The state is reached by a
  connection followed by two ready-to-play messages.
\<close>

theorem readyToPlay_self_pair:
  assumes "waitingPlayers s = [sid]" and "sockets s sid = Some k" and "connected k"
  shows "readyToPlay sid s =
     s\<lparr>sockets := (sockets s)(sid \<mapsto> k\<lparr>opponent := Str sid\<rparr>),
       waitingPlayers := [],
       outbox := outbox s @ [(sid, MatchFound sid Offerer), (sid, MatchFound sid Answerer)]\<rparr>"
proof -
  have "is_connected s sid"
    using assms by (simp add: is_connected_def)
  with assms(1) have "matchmaking sid s =
     emit sid (MatchFound sid Answerer)
       (emit sid (MatchFound sid Offerer)
         (set_opponent sid (Str sid)
           (set_opponent sid (Str sid) (s\<lparr>waitingPlayers := []\<rparr>))))"
    by (rule matchmaking_pair)
  then show ?thesis
    using assms(2) by (simp add: readyToPlay_def ops_defs)
qed

theorem readyToPlay_self_pair_witness:
  "feasible init [Connect ''a'', Ready ''a'', Ready ''a'']
   \<and> waitingPlayers (run init [Connect ''a'', Ready ''a'']) = [''a'']
   \<and> opponent_of (run init [Connect ''a'', Ready ''a'']) ''a'' = Some Undefined
   \<and> opponent_of (run init [Connect ''a'', Ready ''a'', Ready ''a'']) ''a'' = Some (Str ''a'')
   \<and> waitingPlayers (run init [Connect ''a'', Ready ''a'', Ready ''a'']) = []
   \<and> outbox (run init [Connect ''a'', Ready ''a'', Ready ''a'']) =
       outbox (run init [Connect ''a'', Ready ''a''])
         @ [(''a'', MatchFound ''a'' Offerer), (''a'', MatchFound ''a'' Answerer)]"
proof -
  let ?s = "run init [Connect ''a'', Ready ''a'']"
  have f: "feasible init [Connect ''a'', Ready ''a'', Ready ''a'']"
    by (simp add: run_defs matchmaking_enqueue ops_defs)
  have q: "waitingPlayers ?s = [''a'']"
    by (simp add: run_defs matchmaking_enqueue ops_defs)
  have k: "sockets ?s ''a'' = Some new_socket"
    by (simp add: run_defs matchmaking_enqueue ops_defs)
  have c: "connected new_socket"
    by (simp add: new_socket_def)
  have r: "run init [Connect ''a'', Ready ''a'', Ready ''a''] = readyToPlay ''a'' ?s"
    by simp
  have o: "opponent_of ?s ''a'' = Some Undefined"
    using k by (simp add: opponent_of_def new_socket_def)
  show ?thesis
    unfolding r readyToPlay_self_pair [OF q k c] using f q o
    by (simp add: opponent_of_def)
qed

text \<open>
  C9. Whenever matchmaking establishes a pairing (the queue holds a connected id; stale ids
  before it are discarded), the caller is sent match-found with role offerer and the
  dequeued session match-found with role answerer, in that order; with no connected id in
  the queue only the waiting notification is emitted. The rematch-ready handler, when the
  supplied id resolves to a connected session, sends offerer to the caller and answerer to
  that session.
\<close>

theorem role_assignment:
  "(dropWhile (\<lambda>i. \<not> is_connected s i) (waitingPlayers s) = oid # rest \<longrightarrow>
      outbox (matchmaking sid s) =
        outbox s @ [(sid, MatchFound oid Offerer), (oid, MatchFound sid Answerer)])
   \<and> (dropWhile (\<lambda>i. \<not> is_connected s i) (waitingPlayers s) = [] \<longrightarrow>
      outbox (matchmaking sid s) = outbox s @ [(sid, WaitingForOpponent)])
   \<and> (sockets s sid = Some k \<and> get_socket s opponentId = Some (oid', ko) \<longrightarrow>
      opponentId = Str oid'
      \<and> outbox (rematchReady sid opponentId s) =
          outbox s @ [(sid, MatchFound oid' Offerer), (oid', MatchFound sid Answerer)])"
proof (intro conjI impI)
  assume "dropWhile (\<lambda>i. \<not> is_connected s i) (waitingPlayers s) = oid # rest"
  then show "outbox (matchmaking sid s) =
      outbox s @ [(sid, MatchFound oid Offerer), (oid, MatchFound sid Answerer)]"
    by (simp add: matchmaking_dropWhile ops_defs)
next
  assume "dropWhile (\<lambda>i. \<not> is_connected s i) (waitingPlayers s) = []"
  then show "outbox (matchmaking sid s) = outbox s @ [(sid, WaitingForOpponent)]"
    by (simp only: matchmaking_dropWhile list.case) (simp add: ops_defs)
next
  assume h: "sockets s sid = Some k \<and> get_socket s opponentId = Some (oid', ko)"
  then show "opponentId = Str oid'"
    by (cases opponentId) (auto split: option.splits if_splits)
  from h show "outbox (rematchReady sid opponentId s) =
      outbox s @ [(sid, MatchFound oid' Offerer), (oid', MatchFound sid Answerer)]"
    by (simp add: rematchReady_def ops_defs)
qed

theorem role_assignment_witness:
  "outbox (matchmaking ''b'' (run init [Connect ''a'', Connect ''b'', Ready ''a''])) =
     outbox (run init [Connect ''a'', Connect ''b'', Ready ''a''])
       @ [(''b'', MatchFound ''a'' Offerer), (''a'', MatchFound ''b'' Answerer)]
   \<and> outbox (matchmaking ''a'' (run init [Connect ''a'', Connect ''b''])) =
     outbox (run init [Connect ''a'', Connect ''b'']) @ [(''a'', WaitingForOpponent)]
   \<and> outbox (rematchReady ''b'' (Str ''a'') (run init [Connect ''a'', Connect ''b''])) =
     outbox (run init [Connect ''a'', Connect ''b''])
       @ [(''b'', MatchFound ''a'' Offerer), (''a'', MatchFound ''b'' Answerer)]"
proof -
  let ?s = "run init [Connect ''a'', Connect ''b'', Ready ''a'']"
  let ?t = "run init [Connect ''a'', Connect ''b'']"
  have d: "dropWhile (\<lambda>i. \<not> is_connected ?s i) (waitingPlayers ?s) = ''a'' # []"
    by (simp add: run_defs matchmaking_enqueue ops_defs)
  have e: "dropWhile (\<lambda>i. \<not> is_connected ?t i) (waitingPlayers ?t) = []"
    by (simp add: run_defs ops_defs)
  have k: "sockets ?t ''b'' = Some new_socket
      \<and> get_socket ?t (Str ''a'') = Some (''a'', new_socket)"
    by (simp add: run_defs ops_defs)
  from role_assignment [of ?s "''a''" "[]" "''b''"] d
  have 1: "outbox (matchmaking ''b'' ?s) =
      outbox ?s @ [(''b'', MatchFound ''a'' Offerer), (''a'', MatchFound ''b'' Answerer)]"
    by blast
  from role_assignment [of ?t _ _ "''a''"] e
  have 2: "outbox (matchmaking ''a'' ?t) = outbox ?t @ [(''a'', WaitingForOpponent)]"
    by blast
  from role_assignment [of ?t _ _ "''b''" new_socket "Str ''a''" "''a''" new_socket] k
  have 3: "outbox (rematchReady ''b'' (Str ''a'') ?t) =
      outbox ?t @ [(''b'', MatchFound ''a'' Offerer), (''a'', MatchFound ''b'' Answerer)]"
    by blast
  from 1 2 3 show ?thesis
    by (intro conjI)
qed

text \<open>
  C6. Disconnecting a session that is not queued and has no opponent changes the state
  in two places only: the session leaves the registry and its own rematch flag is
  deleted. The queue is unchanged (filtering an absent id out is a no-op), nothing is
  emitted, and every other session's object, opponent reference and rematch flag are as
  before.
\<close>

theorem disconnect_unqueued_unpaired:
  assumes "sockets s sid = Some k" and "sid \<notin> set (waitingPlayers s)"
    and "\<not> truthy (opponent k)"
  shows "disconnect sid s =
      s\<lparr>sockets := (sockets s)(sid \<mapsto> k\<lparr>connected := False\<rparr>),
        rematchRequests := (rematchRequests s)(sid := None)\<rparr>
    \<and> waitingPlayers (disconnect sid s) = waitingPlayers s
    \<and> filter (\<lambda>i. i \<noteq> sid) (waitingPlayers s) = waitingPlayers s
    \<and> outbox (disconnect sid s) = outbox s
    \<and> (\<forall>t. t \<noteq> sid \<longrightarrow>
          sockets (disconnect sid s) t = sockets s t
        \<and> opponent_of (disconnect sid s) t = opponent_of s t
        \<and> rematchRequests (disconnect sid s) t = rematchRequests s t)"
proof -
  have q: "filter (\<lambda>i. i \<noteq> sid) (waitingPlayers s) = waitingPlayers s"
    using assms(2) by (induction "waitingPlayers s") (auto simp: filter_id_conv)
  have d: "disconnect sid s =
      s\<lparr>sockets := (sockets s)(sid \<mapsto> k\<lparr>connected := False\<rparr>),
        rematchRequests := (rematchRequests s)(sid := None)\<rparr>"
    using assms(1,3) q by (simp add: disconnect_def ops_defs)
  show ?thesis
    unfolding d using q by (simp add: opponent_of_def)
qed

theorem disconnect_unqueued_unpaired_witness:
  "sockets (run init [Connect ''a'', Connect ''b'', Ready ''b'']) ''a'' = Some new_socket
   \<and> ''a'' \<notin> set (waitingPlayers (run init [Connect ''a'', Connect ''b'', Ready ''b'']))
   \<and> \<not> truthy (opponent new_socket)
   \<and> waitingPlayers (disconnect ''a'' (run init [Connect ''a'', Connect ''b'', Ready ''b'']))
       = [''b'']
   \<and> is_connected (run init [Connect ''a'', Connect ''b'', Ready ''b'']) ''a''
   \<and> \<not> is_connected (disconnect ''a'' (run init [Connect ''a'', Connect ''b'', Ready ''b''])) ''a''"
proof -
  let ?s = "run init [Connect ''a'', Connect ''b'', Ready ''b'']"
  have k: "sockets ?s ''a'' = Some new_socket"
    by (simp add: run_defs matchmaking_enqueue ops_defs)
  have q: "waitingPlayers ?s = [''b'']"
    by (simp add: run_defs matchmaking_enqueue ops_defs)
  have n: "''a'' \<notin> set (waitingPlayers ?s)"
    unfolding q by simp
  have t: "\<not> truthy (opponent new_socket)"
    by (simp add: new_socket_def)
  have c: "is_connected ?s ''a''"
    using k by (simp add: is_connected_def new_socket_def)
  from disconnect_unqueued_unpaired [OF k n t]
  have "disconnect ''a'' ?s =
      ?s\<lparr>sockets := (sockets ?s)(''a'' \<mapsto> new_socket\<lparr>connected := False\<rparr>),
        rematchRequests := (rematchRequests ?s)(''a'' := None)\<rparr>"
    and "waitingPlayers (disconnect ''a'' ?s) = waitingPlayers ?s"
    by blast+
  then have "waitingPlayers (disconnect ''a'' ?s) = [''b'']"
    and "\<not> is_connected (disconnect ''a'' ?s) ''a''"
    using q by (simp_all add: is_connected_def)
  then show ?thesis
    using k n t c by blast
qed

text \<open>
  C10. The rematch-ready handler pairs the caller with whatever connected session the
  supplied id resolves to, whatever either session's opponent was before: that session's
  opponent reference becomes the caller, the caller's becomes that session, and every
  third session is untouched. So from two pairs a-b and c-d, a naming c re-pairs c with
  a, while d still points at c and b still points at a.
\<close>

theorem rematchReady_unchecked:
  assumes "sockets s sid = Some k" and "get_socket s opponentId = Some (oid, ko)"
  shows "opponent_of (rematchReady sid opponentId s) oid = Some (Str sid)
    \<and> (sid \<noteq> oid \<longrightarrow> opponent_of (rematchReady sid opponentId s) sid = Some (Str oid))
    \<and> (\<forall>d. d \<noteq> sid \<and> d \<noteq> oid \<longrightarrow>
          sockets (rematchReady sid opponentId s) d = sockets s d)
    \<and> waitingPlayers (rematchReady sid opponentId s) = waitingPlayers s"
proof -
  have o: "opponentId = Str oid" and ko: "sockets s oid = Some ko"
    using assms(2) by (cases opponentId; auto split: option.splits if_splits)+
  show ?thesis
    using assms ko unfolding o
    by (simp add: rematchReady_def opponent_of_def ops_defs)
qed

theorem rematchReady_unchecked_witness:
  "feasible init [Connect ''a'', Connect ''b'', Connect ''c'', Connect ''d'',
               Ready ''a'', Ready ''b'', Ready ''c'', Ready ''d'']
   \<and> opponent_of two_pairs ''a'' = Some (Str ''b'')
   \<and> opponent_of two_pairs ''c'' = Some (Str ''d'')
   \<and> opponent_of two_pairs ''d'' = Some (Str ''c'')
   \<and> opponent_of (rematchReady ''a'' (Str ''c'') two_pairs) ''c'' = Some (Str ''a'')
   \<and> opponent_of (rematchReady ''a'' (Str ''c'') two_pairs) ''a'' = Some (Str ''c'')
   \<and> opponent_of (rematchReady ''a'' (Str ''c'') two_pairs) ''d'' = Some (Str ''c'')
   \<and> opponent_of (rematchReady ''a'' (Str ''c'') two_pairs) ''b'' = Some (Str ''a'')"
proof -
  have f: "feasible init [Connect ''a'', Connect ''b'', Connect ''c'', Connect ''d'',
               Ready ''a'', Ready ''b'', Ready ''c'', Ready ''d'']"
    by (simp add: run_defs matchmaking_enqueue matchmaking_pair ops_defs)
  have g: "get_socket two_pairs (Str ''c'') = Some (''c'', new_socket\<lparr>opponent := Str ''d''\<rparr>)"
    by (simp add: two_pairs_sockets new_socket_def)
  from rematchReady_unchecked [OF two_pairs_sockets(1) g]
  have "opponent_of (rematchReady ''a'' (Str ''c'') two_pairs) ''c'' = Some (Str ''a'')"
    and "opponent_of (rematchReady ''a'' (Str ''c'') two_pairs) ''a'' = Some (Str ''c'')"
    and "sockets (rematchReady ''a'' (Str ''c'') two_pairs) ''d'' = sockets two_pairs ''d''"
    and "sockets (rematchReady ''a'' (Str ''c'') two_pairs) ''b'' = sockets two_pairs ''b''"
    by simp_all
  then show ?thesis
    using f by (simp add: opponent_of_def two_pairs_sockets new_socket_def)
qed

section \<open>Unfolding the player-move handler\<close>


lemma playerMove_draw:
  assumes "sockets s sid = Some k" and "opponent_with_move sid mv s = Some (oid, ko)"
    and "determineWinner mv (move ko) = ''draw''"
  shows "playerMove sid (Payload mv) s =
    Inr (set_move oid Null (set_move sid Null
           (emit oid (GameResult ''Draw'') (emit sid (GameResult ''Draw'') (set_move sid mv s)))),
         None)"
  using assms
  by (auto simp: playerMove_def opponent_with_move_def Let_def split: option.splits if_splits)






lemma opponent_with_move_examples:
  "opponent_with_move ''a'' mv pair_ab = None"
  "opponent_with_move ''a'' mv b_played_rock =
     Some (''b'', new_socket\<lparr>opponent := Str ''a'', move := Str ''rock''\<rparr>)"
  "opponent_with_move ''a'' mv b_played_lizard =
     Some (''b'', new_socket\<lparr>opponent := Str ''a'', move := Str ''lizard''\<rparr>)"
  by (simp_all add: opponent_with_move_def pair_ab_fields b_played_rock_fields
      b_played_lizard_fields new_socket_def ops_defs)

section \<open>Properties of the player-move and rematch handlers\<close>





text \<open>
  C4 (as stated). On the second request of the rematch handshake both sessions get a
  notification of the shape of match-found, with roles. The handler emits something else:
  after b's request, a's request sends each session a rematch-ready event carrying the
  other's id, and no match-found event.
\<close>

theorem requestRematch_roles_counterexample:
  "opponent_of b_requested ''a'' = Some (Str ''b'')
   \<and> is_connected b_requested ''b''
   \<and> rematchRequests b_requested ''b'' = Some True
   \<and> outbox (requestRematch ''a'' b_requested) =
       outbox b_requested @ [(''a'', RematchReady ''b''), (''b'', RematchReady ''a'')]
   \<and> filter (\<lambda>(i, e). is_matchFound e)
         (drop (length (outbox b_requested)) (outbox (requestRematch ''a'' b_requested))) = []"
proof -
  have r: "outbox (requestRematch ''a'' b_requested) =
       outbox b_requested @ [(''a'', RematchReady ''b''), (''b'', RematchReady ''a'')]"
    by (simp add: requestRematch_def b_requested_fields new_socket_def ops_defs)
  show ?thesis
    unfolding r
    by (simp add: b_requested_fields opponent_of_def is_connected_def new_socket_def)
qed


text \<open>
  C4 (amended). On the second request of the handshake (the opponent is connected and
  its rematch flag is set) both rematch flags are set to false, the two opponent
  references point at each other, the queue is untouched, and each session is sent a
  rematch-ready event with the other's id and no role. The match-found events with
  roles follow only when a session answers with the rematch-ready message: offerer for
  the session that answers, answerer for the other.
\<close>

theorem requestRematch_second_request:
  assumes "sockets s sid = Some k" and "truthy (opponent k)"
    and "get_socket s (opponent k) = Some (oid, ko)"
    and "rematchRequests s oid = Some True"
  shows "rematchRequests (requestRematch sid s) sid = Some False
    \<and> rematchRequests (requestRematch sid s) oid = Some False
    \<and> opponent_of (requestRematch sid s) sid = Some (Str oid)
    \<and> opponent_of (requestRematch sid s) oid = Some (Str sid)
    \<and> waitingPlayers (requestRematch sid s) = waitingPlayers s
    \<and> outbox (requestRematch sid s) =
        outbox s @ [(sid, RematchReady oid), (oid, RematchReady sid)]
    \<and> outbox (rematchReady sid (Str oid) (requestRematch sid s)) =
        outbox s @ [(sid, RematchReady oid), (oid, RematchReady sid),
                    (sid, MatchFound oid Offerer), (oid, MatchFound sid Answerer)]"
proof -
  have o: "opponent k = Str oid" and ko: "sockets s oid = Some ko" and c: "connected ko"
    using assms(3) by (cases "opponent k"; auto split: option.splits if_splits)+
  have r: "requestRematch sid s =
      set_opponent oid (Str sid)
        (set_opponent sid (Str oid)
          (set_rematch sid False
            (set_rematch oid False
              (emit oid (RematchReady sid) (emit sid (RematchReady oid) s)))))"
    using assms by (simp add: requestRematch_def)
  have g: "\<exists>k'. get_socket (requestRematch sid s) (Str oid) = Some (oid, k')"
    unfolding r using assms(1) ko c by (cases "oid = sid") (simp_all add: ops_defs)
  have e: "sockets (requestRematch sid s) sid \<noteq> None"
    unfolding r using assms(1) by (simp add: ops_defs)
  have m: "outbox (rematchReady sid (Str oid) (requestRematch sid s)) =
      outbox (requestRematch sid s) @ [(sid, MatchFound oid Offerer), (oid, MatchFound sid Answerer)]"
    using g e by (auto simp: rematchReady_def ops_defs)
  show ?thesis
    unfolding m unfolding r using assms(1) ko
    by (simp add: opponent_of_def ops_defs)
qed

theorem requestRematch_second_request_witness:
  "sockets b_requested ''a'' = Some (new_socket\<lparr>opponent := Str ''b''\<rparr>)
   \<and> truthy (opponent (new_socket\<lparr>opponent := Str ''b''\<rparr>))
   \<and> get_socket b_requested (Str ''b'') = Some (''b'', new_socket\<lparr>opponent := Str ''a''\<rparr>)
   \<and> rematchRequests b_requested ''b'' = Some True
   \<and> rematchRequests (requestRematch ''a'' b_requested) ''a'' = Some False
   \<and> rematchRequests (requestRematch ''a'' b_requested) ''b'' = Some False
   \<and> opponent_of (requestRematch ''a'' b_requested) ''a'' = Some (Str ''b'')
   \<and> opponent_of (requestRematch ''a'' b_requested) ''b'' = Some (Str ''a'')"
proof -
  let ?k = "new_socket\<lparr>opponent := Str ''b''\<rparr>"
  have t: "truthy (opponent ?k)"
    by simp
  have g: "get_socket b_requested (opponent ?k) = Some (''b'', new_socket\<lparr>opponent := Str ''a''\<rparr>)"
    by (simp add: b_requested_fields new_socket_def)
  from requestRematch_second_request [OF b_requested_fields(1) t g b_requested_fields(3)]
  show ?thesis
    using g by (simp add: b_requested_fields)
qed

text \<open>
  C5 (as stated). Both pending moves are cleared after every round resolution, and a
  session's pending move is cleared whenever it is paired anew. Neither holds in this
  run: a submits rock while unpaired, then enters matchmaking and is paired with b; a's
  pending move is still rock. Then b submits scissors, the round is resolved against the
  move a stored before the pairing, and when both results have been emitted and the
  handler waits for the reward call, a still holds rock and b holds scissors.
\<close>

theorem pendingMove_kept_counterexample:
  "opponent_of a_played_alone ''a'' = Some Undefined
   \<and> move_of a_played_alone ''a'' = Some (Str ''rock'')
   \<and> opponent_of (readyToPlay ''a'' a_played_alone) ''a'' = Some (Str ''b'')
   \<and> opponent_of (readyToPlay ''a'' a_played_alone) ''b'' = Some (Str ''a'')
   \<and> move_of (readyToPlay ''a'' a_played_alone) ''a'' = Some (Str ''rock'')
   \<and> playerMove ''b'' (Payload (Str ''scissors'')) (readyToPlay ''a'' a_played_alone) =
       Inr (emit ''b'' (GameResult ''You lost!'')
              (emit ''a'' (GameResult ''You won!'')
                 (set_move ''b'' (Str ''scissors'') (readyToPlay ''a'' a_played_alone))),
            Some \<lparr>pm_socket = ''b'', pm_opponent = ''a'', pm_winner = ''a'',
                  pm_address = Undefined\<rparr>)
   \<and> move_of (emit ''b'' (GameResult ''You lost!'')
              (emit ''a'' (GameResult ''You won!'')
                 (set_move ''b'' (Str ''scissors'') (readyToPlay ''a'' a_played_alone))))
         ''a'' = Some (Str ''rock'')
   \<and> move_of (emit ''b'' (GameResult ''You lost!'')
              (emit ''a'' (GameResult ''You won!'')
                 (set_move ''b'' (Str ''scissors'') (readyToPlay ''a'' a_played_alone))))
         ''b'' = Some (Str ''scissors'')"
proof -
  have c: "is_connected a_played_alone ''b''"
    by (simp add: is_connected_def a_played_alone_fields new_socket_def)
  have m: "readyToPlay ''a'' a_played_alone =
     emit ''b'' (MatchFound ''a'' Answerer)
       (emit ''a'' (MatchFound ''b'' Offerer)
         (set_opponent ''b'' (Str ''a'')
           (set_opponent ''a'' (Str ''b'') (a_played_alone\<lparr>waitingPlayers := []\<rparr>))))"
    using matchmaking_pair [OF a_played_alone_fields(3) c, of "''a''"]
    by (simp add: readyToPlay_def a_played_alone_fields)
  show ?thesis
    unfolding m
    by (simp add: playerMove_def determineWinner_def opponent_of_def move_of_def
        a_played_alone_fields new_socket_def ops_defs Let_def)
qed

text \<open>
  C5 (amended). When a round is resolved as a draw, both sessions' pending moves are
  null when the handler returns. Pairing does not clear pending moves: matchmaking and
  the rematch-ready handler leave every session's pending move as it was. (Nothing is
  said here about the moment at which a decisive round clears them.)
\<close>

theorem pendingMove_cleared_on_draw:
  "(sockets s sid = Some k \<and> opponent_with_move sid mv s = Some (oid, ko)
      \<and> determineWinner mv (move ko) = ''draw'' \<longrightarrow>
      (\<exists>s'. playerMove sid (Payload mv) s = Inr (s', None)
         \<and> move_of s' sid = Some Null \<and> move_of s' oid = Some Null))
   \<and> (\<forall>c i. move_of (matchmaking c s) i = move_of s i)
   \<and> (\<forall>c v i. move_of (rematchReady c v s) i = move_of s i)"
proof (intro conjI impI allI)
  assume h: "sockets s sid = Some k \<and> opponent_with_move sid mv s = Some (oid, ko)
      \<and> determineWinner mv (move ko) = ''draw''"
  then have "get_socket (set_move sid mv s) (opponent k) = Some (oid, ko)"
    by (auto simp: opponent_with_move_def split: if_splits option.splits)
  then have "sockets (set_move sid mv s) oid = Some ko"
    by (cases "opponent k") (auto split: option.splits if_splits)
  then have ex: "sockets s oid \<noteq> None"
    by (auto simp: ops_defs split: if_splits)
  let ?s' = "set_move oid Null (set_move sid Null
      (emit oid (GameResult ''Draw'') (emit sid (GameResult ''Draw'') (set_move sid mv s))))"
  have "playerMove sid (Payload mv) s = Inr (?s', None)"
    using h playerMove_draw by blast
  moreover have "move_of ?s' sid = Some Null" "move_of ?s' oid = Some Null"
    using h ex by (auto simp: move_of_def ops_defs)
  ultimately show "\<exists>s'. playerMove sid (Payload mv) s = Inr (s', None)
         \<and> move_of s' sid = Some Null \<and> move_of s' oid = Some Null"
    by blast
next
  fix c i show "move_of (matchmaking c s) i = move_of s i"
    by (rule move_of_matchmaking)
next
  fix c v i show "move_of (rematchReady c v s) i = move_of s i"
    by (rule move_of_rematchReady)
qed

theorem pendingMove_cleared_on_draw_witness:
  "sockets b_played_rock ''a'' = Some (new_socket\<lparr>opponent := Str ''b''\<rparr>)
   \<and> determineWinner (Str ''rock'') (Str ''rock'') = ''draw''
   \<and> (\<exists>s'. playerMove ''a'' (Payload (Str ''rock'')) b_played_rock = Inr (s', None)
          \<and> move_of s' ''a'' = Some Null \<and> move_of s' ''b'' = Some Null)
   \<and> move_of (matchmaking ''a'' a_played_alone) ''a'' = Some (Str ''rock'')
   \<and> move_of (rematchReady ''a'' (Str ''b'') a_played_alone) ''a'' = Some (Str ''rock'')"
proof -
  let ?kr = "new_socket\<lparr>opponent := Str ''a'', move := Str ''rock''\<rparr>"
  have d: "determineWinner (Str ''rock'') (move ?kr) = ''draw''"
    by (simp add: determineWinner_def)
  have d': "determineWinner (Str ''rock'') (Str ''rock'') = ''draw''"
    by (simp add: determineWinner_def)
  have a: "move_of a_played_alone ''a'' = Some (Str ''rock'')"
    by (simp add: move_of_def a_played_alone_fields)
  from pendingMove_cleared_on_draw [of b_played_rock "''a''" _ "Str ''rock''" "''b''" ?kr]
    b_played_rock_fields(1) opponent_with_move_examples(2) [of "Str ''rock''"] d
  have 1: "\<exists>s'. playerMove ''a'' (Payload (Str ''rock'')) b_played_rock = Inr (s', None)
          \<and> move_of s' ''a'' = Some Null \<and> move_of s' ''b'' = Some Null"
    by blast
  from pendingMove_cleared_on_draw [of a_played_alone] a
  have 2: "move_of (matchmaking ''a'' a_played_alone) ''a'' = Some (Str ''rock'')"
    and 3: "move_of (rematchReady ''a'' (Str ''b'') a_played_alone) ''a'' = Some (Str ''rock'')"
    by simp_all
  from 1 2 3 d' b_played_rock_fields(1) show ?thesis
    by blast
qed

section \<open>The queue invariant\<close>

lemma paired_observed [simp]:
  "paired (emit j e s) i = paired s i"
  "paired (delete_rematch j s) i = paired s i"
  "paired (s\<lparr>waitingPlayers := q\<rparr>) i = paired s i"
  "paired (upd_socket j (\<lambda>k. k\<lparr>connected := False\<rparr>) s) i = paired s i"
  "paired (set_opponent j Null s) i = (i \<noteq> j \<and> paired s i)"
proof -
  show "paired (emit j e s) i = paired s i"
    by (simp add: paired_def opponent_of_def emit_def)
  show "paired (delete_rematch j s) i = paired s i"
    by (simp add: paired_def opponent_of_def delete_rematch_def)
  show "paired (s\<lparr>waitingPlayers := q\<rparr>) i = paired s i"
    by (simp add: paired_def opponent_of_def)
  show "paired (upd_socket j (\<lambda>k. k\<lparr>connected := False\<rparr>) s) i = paired s i"
    by (cases "sockets s j") (simp_all add: paired_def opponent_of_def upd_socket_def)
  show "paired (set_opponent j Null s) i = (i \<noteq> j \<and> paired s i)"
    by (cases "sockets s j")
      (simp_all add: paired_def opponent_of_def set_opponent_def upd_socket_def)
qed

lemma sockets_observed [simp]:
  "sockets (emit j e s) = sockets s"
  "sockets (delete_rematch j s) = sockets s"
  "(sockets (upd_socket j f s) i = None) = (sockets s i = None)"
  "(sockets (set_opponent j v s) i = None) = (sockets s i = None)"
  by (simp_all add: ops_defs)

lemma queue_observed [simp]:
  "waitingPlayers (emit j e s) = waitingPlayers s"
  "waitingPlayers (delete_rematch j s) = waitingPlayers s"
  "waitingPlayers (set_opponent j v s) = waitingPlayers s"
  "waitingPlayers (upd_socket j f s) = waitingPlayers s"
  by (simp_all add: ops_defs)

lemma queue_inv_frame [simp]:
  "queue_inv (emit j e s) = queue_inv s"
  "queue_inv (delete_rematch j s) = queue_inv s"
  by (simp_all add: queue_inv_def)














end
